theory Spec2Isabelle
  imports Main "HOL-Library.AList"
begin

section \<open>Values, events and effects\<close>

text \<open>
  The client of \<^verbatim>\<open>src/index.js\<close> (class \<^verbatim>\<open>MissionControlClient\<close>) is a set of
  callbacks over a socket.io socket and a nanobus event bus. Each callback is embedded as a
  function from the client's fields to the new fields and the list of effects it performs, in
  program order. The socket and the bus are collaborators: what they are asked to do is an
  effect, what they deliver is an input.

  The client keeps its registry and its state cache in two object literals, so every
  \<^verbatim>\<open>in\<close>, read and write of a key goes through the prototype chain, and
  \<^verbatim>\<open>for ... in\<close> follows the property order of the language. Both are part of the
  embedding: the properties of \<^verbatim>\<open>Object.prototype\<close>, the property \<^verbatim>\<open>listeners\<close> that
  the client can add to it, the prototype of the cache, which a \<^verbatim>\<open>sync\<close> for the name
  \<^verbatim>\<open>__proto__\<close> replaces, and array indices coming first among the keys.

  What is assumed: listeners registered on the bus and the logger return normally;
  \<^verbatim>\<open>Object.prototype\<close> is the standard one when the client is constructed and nothing
  but the client changes it; values that arrive from the server are the values of
  \<^verbatim>\<open>jsval\<close>, in which an object is a list of its own properties.
\<close>

text \<open>Values that arrive in an event or an acknowledgement.\<close>

datatype jsval =
    JUndefined
  | JNull
  | JBool bool
  | JNum int
  | JNaN
  | JStr string
  | JObj "(string \<times> jsval) list"

fun truthy :: "jsval \<Rightarrow> bool" where
  "truthy JUndefined = False"
| "truthy JNull = False"
| "truthy (JBool b) = b"
| "truthy (JNum n) = (n \<noteq> 0)"
| "truthy JNaN = False"
| "truthy (JStr s) = (s \<noteq> [])"
| "truthy (JObj ps) = True"

text \<open>
  What a read of a property can give: a value that arrived, a function of
  \<^verbatim>\<open>Object.prototype\<close> known by its name, or \<^verbatim>\<open>Object.prototype\<close> itself.
\<close>

datatype pvalue = Wire jsval | Builtin string | ObjectPrototype

fun truthy_value :: "pvalue \<Rightarrow> bool" where
  "truthy_value (Wire v) = truthy v"
| "truthy_value (Builtin name) = True"
| "truthy_value ObjectPrototype = True"

datatype SOCKET_ERROR = GENERAL | TIMEOUT | NO_ATTEMPTS_LEFT | AUTH_FAILED | AUTH_TIMEOUT

datatype DISCONNECT_REASON = UNKNOWN | SERVER_DISCONNECT | CLIENT_DISCONNECT | PING_TIMEOUT

text \<open>Exceptions that reach the caller.\<close>

datatype exn = Error string | TypeError

text \<open>
  The payload of an outgoing request: \<^verbatim>\<open>{ token }\<close>, \<^verbatim>\<open>{ service }\<close>, or \<^verbatim>\<open>{ event }\<close> in
  the older build.
\<close>

datatype payload = Token string | ServiceKey string | EventKey string

datatype request = Authenticate payload | Subscribe payload | Unsubscribe payload

text \<open>
  The acknowledgement of a request, as \<^verbatim>\<open>_socketEmit\<close> reads it: the value of
  \<^verbatim>\<open>response.error\<close>, \<^verbatim>\<open>undefined\<close> when the property is absent.
\<close>

record response =
  error :: jsval

text \<open>An argument of a bus emission: an error kind, a disconnect reason, or a value.\<close>

datatype arg = Kind SOCKET_ERROR | Reason DISCONNECT_REASON | Val jsval

text \<open>
  A listener is known by a number. \<^verbatim>\<open>service\<close> registers the wrapper
  \<^verbatim>\<open>errorHandledListener\<close> around it, and its disposer removes the listener itself.
\<close>

datatype lref = Raw nat | Wrapped nat

datatype level = Debug | Warn | Err

datatype effect =
    Log level string
  | Send request
  | Emit string "arg list"
  | BusOn string lref
  | BusOff string lref
  | SocketOn string lref
  | SocketOff string lref
  | Invoke lref pvalue
  | Raise exn

section \<open>Object literals as dictionaries\<close>

text \<open>
  The own properties of \<^verbatim>\<open>Object.prototype\<close>: eleven functions and the accessor
  \<^verbatim>\<open>__proto__\<close>. None of them is enumerable.
\<close>

definition object_prototype_functions :: "string list" where
  "object_prototype_functions =
     [''constructor'', ''__defineGetter__'', ''__defineSetter__'', ''hasOwnProperty'',
      ''__lookupGetter__'', ''__lookupSetter__'', ''isPrototypeOf'', ''propertyIsEnumerable'',
      ''toString'', ''valueOf'', ''toLocaleString'']"

definition object_prototype_names :: "string list" where
  "object_prototype_names = ''__proto__'' # object_prototype_functions"

text \<open>
  An array index is the canonical decimal string of an integer up to \<open>2\<^sup>3\<^sup>2 - 2\<close>. The own
  keys of an object come in property order: the array indices in ascending order, then the
  other keys in the order of their creation.
\<close>

definition is_digit :: "char \<Rightarrow> bool" where
  "is_digit c = (c \<in> set ''0123456789'')"

definition digit_value :: "char \<Rightarrow> nat" where
  "digit_value c = of_char c - 48"

definition array_index :: "string \<Rightarrow> nat option" where
  "array_index k =
     (if k \<noteq> [] \<and> list_all is_digit k \<and> (length k = 1 \<or> hd k \<noteq> CHR ''0'')
         \<and> foldl (\<lambda>n c. 10 * n + digit_value c) 0 k \<le> 4294967294
      then Some (foldl (\<lambda>n c. 10 * n + digit_value c) 0 k)
      else None)"

fun place :: "nat \<Rightarrow> string \<times> int \<Rightarrow> (string \<times> int) list \<Rightarrow> (string \<times> int) list" where
  "place i kv [] = [kv]"
| "place i kv (p # rest) =
     (case array_index (fst p) of
        Some j \<Rightarrow> if j < i then p # place i kv rest else kv # p # rest
      | None \<Rightarrow> kv # p # rest)"

text \<open>The creation of an own property \<open>k\<close> on an object that does not have it.\<close>

definition insert_own :: "string \<Rightarrow> int \<Rightarrow> (string \<times> int) list \<Rightarrow> (string \<times> int) list" where
  "insert_own k v xs =
     (case array_index k of None \<Rightarrow> xs @ [(k, v)] | Some i \<Rightarrow> place i (k, v) xs)"

text \<open>
  The prototype of the state cache: \<^verbatim>\<open>Object.prototype\<close> at first; an object or
  \<^verbatim>\<open>null\<close> once the setter of \<^verbatim>\<open>__proto__\<close> was called with it. An object that arrived
  has \<^verbatim>\<open>Object.prototype\<close> as its own prototype.
\<close>

datatype prototype = ObjectProto | NullProto | ObjProto "(string \<times> jsval) list"

section \<open>The client of src/index.js\<close>

text \<open>
  \<open>services\<close> and \<open>stateCache\<close> hold the own properties of \<^verbatim>\<open>_services\<close> and
  \<^verbatim>\<open>_stateCache\<close>; \<open>protoListeners\<close> tells whether \<^verbatim>\<open>Object.prototype\<close> has the
  property \<^verbatim>\<open>listeners\<close>, whose value is then \<^verbatim>\<open>NaN\<close> and which is enumerable.
\<close>

record client =
  authToken :: string
  ready :: bool
  services :: "(string \<times> int) list"
  stateCache :: "string \<rightharpoonup> jsval"
  cachePrototype :: prototype
  protoListeners :: bool

text \<open>The constructor: both arguments are required, an empty string is falsy.\<close>

definition new_client :: "string \<Rightarrow> string \<Rightarrow> exn + client" where
  "new_client url tok =
     (if url = [] then Inl (Error ''You need to pass an URL.'')
      else if tok = [] then Inl (Error ''You need to pass an Auth Token.'')
      else Inr \<lparr>authToken = tok, ready = False, services = [], stateCache = Map.empty,
                cachePrototype = ObjectProto, protoListeners = False\<rparr>)"

subsection \<open>Reads and writes of the two objects\<close>

text \<open>
  What \<^verbatim>\<open>this._services[name]\<close> is: an own entry with its count, a function or the
  prototype object inherited from \<^verbatim>\<open>Object.prototype\<close>, the number \<^verbatim>\<open>NaN\<close> inherited
  as \<^verbatim>\<open>listeners\<close>, or \<^verbatim>\<open>undefined\<close>. \<^verbatim>\<open>name in this._services\<close> holds in every case
  but the last.
\<close>

datatype entry = Own int | InheritedFunction | InheritedPrototype | InheritedNumber | Missing

definition lookup_service :: "client \<Rightarrow> string \<Rightarrow> entry" where
  "lookup_service s name =
     (case map_of (services s) name of
        Some n \<Rightarrow> Own n
      | None \<Rightarrow>
          if name \<in> set object_prototype_functions then InheritedFunction
          else if name = ''__proto__'' then InheritedPrototype
          else if protoListeners s \<and> name = ''listeners'' then InheritedNumber
          else Missing)"

text \<open>The keys that \<^verbatim>\<open>for (const service in this._services)\<close> visits, in its order.\<close>

definition for_in :: "client \<Rightarrow> string list" where
  "for_in s =
     map fst (services s)
     @ (if protoListeners s \<and> map_of (services s) ''listeners'' = None
        then [''listeners''] else [])"

text \<open>
  What a name gives that is not an own property of the cache and is looked up from
  \<^verbatim>\<open>Object.prototype\<close> on: the getter of \<^verbatim>\<open>__proto__\<close> returns the prototype of the
  cache, the second argument.
\<close>

definition inherited :: "client \<Rightarrow> pvalue \<Rightarrow> string \<Rightarrow> pvalue" where
  "inherited s proto name =
     (if name \<in> set object_prototype_functions then Builtin name
      else if name = ''__proto__'' then proto
      else if protoListeners s \<and> name = ''listeners'' then Wire JNaN
      else Wire JUndefined)"

text \<open>A read of \<^verbatim>\<open>this._stateCache[name]\<close>.\<close>

definition cached :: "client \<Rightarrow> string \<Rightarrow> pvalue" where
  "cached s name =
     (case stateCache s name of
        Some v \<Rightarrow> Wire v
      | None \<Rightarrow>
          (case cachePrototype s of
             ObjectProto \<Rightarrow> inherited s ObjectPrototype name
           | NullProto \<Rightarrow> Wire JUndefined
           | ObjProto ps \<Rightarrow>
               (case map_of ps name of
                  Some v \<Rightarrow> Wire v
                | None \<Rightarrow> inherited s (Wire (JObj ps)) name)))"

text \<open>
  The assignment \<^verbatim>\<open>this._stateCache[name] = state\<close>. It creates or updates an own
  property, except when it reaches the setter of \<^verbatim>\<open>__proto__\<close>: the setter replaces the
  prototype of the cache by an object or \<^verbatim>\<open>null\<close> and ignores any other value.
\<close>

fun reaches_setter :: "prototype \<Rightarrow> bool" where
  "reaches_setter ObjectProto = True"
| "reaches_setter NullProto = False"
| "reaches_setter (ObjProto ps) = (map_of ps ''__proto__'' = None)"

definition cache_write :: "string \<Rightarrow> jsval \<Rightarrow> client \<Rightarrow> client" where
  "cache_write name state s =
     (if name = ''__proto__'' \<and> stateCache s name = None \<and> reaches_setter (cachePrototype s)
      then (case state of
              JObj ps \<Rightarrow> s\<lparr>cachePrototype := ObjProto ps\<rparr>
            | JNull \<Rightarrow> s\<lparr>cachePrototype := NullProto\<rparr>
            | _ \<Rightarrow> s)
      else s\<lparr>stateCache := (stateCache s)(name \<mapsto> state)\<rparr>)"

subsection \<open>Socket handlers\<close>

text \<open>The \<^verbatim>\<open>'*'\<close> handler: every event except the client's own four goes to the bus.\<close>

definition on_star :: "string \<Rightarrow> jsval list \<Rightarrow> client \<Rightarrow> client \<times> effect list" where
  "on_star event args s =
     (if event \<notin> set [''connect'', ''disconnect'', ''reconnecting'', ''error'']
      then (s, [Emit (''internal:'' @ event) (map Val args)])
      else (s, []))"

text \<open>
  The \<^verbatim>\<open>connect\<close> handler up to its \<^verbatim>\<open>await\<close>: the flag is cleared and the
  \<^verbatim>\<open>authenticate\<close> request leaves.
\<close>

definition on_connect :: "client \<Rightarrow> client \<times> effect list" where
  "on_connect s =
     (s\<lparr>ready := False\<rparr>,
      [Log Debug ''auth:start'', Send (Authenticate (Token (authToken s)))])"

text \<open>The body of the loop \<^verbatim>\<open>for (const service in this._services)\<close>, key by key.\<close>

fun resubscribe :: "string list \<Rightarrow> effect list" where
  "resubscribe [] = []"
| "resubscribe (service # rest) =
     Log Debug ''subscribe to service:'' # Send (Subscribe (ServiceKey service)) # resubscribe rest"

text \<open>
  The \<^verbatim>\<open>connect\<close> handler after its \<^verbatim>\<open>await\<close>, run when the acknowledgement of
  \<^verbatim>\<open>authenticate\<close> arrives: \<^verbatim>\<open>_socketEmit\<close> rejects on a truthy \<^verbatim>\<open>response.error\<close>,
  which the handler catches; otherwise it resolves.
\<close>

definition on_authenticate_ack :: "response \<Rightarrow> client \<Rightarrow> client \<times> effect list" where
  "on_authenticate_ack r s =
     (if truthy (error r)
      then (s\<lparr>ready := False\<rparr>, [Emit ''error'' [Kind AUTH_FAILED, Val (error r)]])
      else (s\<lparr>ready := True\<rparr>,
            [Log Debug ''auth:complete'', Log Debug ''ready'']
            @ resubscribe (for_in s)
            @ [Emit ''connect'' []]))"

text \<open>The \<^verbatim>\<open>switch (reason)\<close> of the \<^verbatim>\<open>disconnect\<close> handler.\<close>

definition disconnectReason :: "string \<Rightarrow> DISCONNECT_REASON" where
  "disconnectReason reason =
     (if reason = ''io server disconnect'' then SERVER_DISCONNECT
      else if reason = ''io client disconnect'' then CLIENT_DISCONNECT
      else if reason = ''ping timeout'' then CLIENT_DISCONNECT
      else UNKNOWN)"

definition on_disconnect :: "string \<Rightarrow> client \<Rightarrow> client \<times> effect list" where
  "on_disconnect reason s =
     (s\<lparr>ready := False\<rparr>, [Emit ''disconnect'' [Reason (disconnectReason reason)]])"

definition on_reconnect_attempt :: "jsval \<Rightarrow> client \<Rightarrow> client \<times> effect list" where
  "on_reconnect_attempt attempt s =
     (s\<lparr>ready := False\<rparr>, [Emit ''reconnecting'' [Val attempt]])"

text \<open>
  The \<^verbatim>\<open>sync\<close> handler. \<^verbatim>\<open>!this._services[serviceName]\<close> holds when the read gives
  \<^verbatim>\<open>undefined\<close> or the inherited \<^verbatim>\<open>NaN\<close>; an own entry, an inherited function and the
  prototype object are truthy.
\<close>

definition on_sync :: "string \<Rightarrow> jsval \<Rightarrow> client \<Rightarrow> client \<times> effect list" where
  "on_sync serviceName state s =
     (if lookup_service s serviceName = Missing \<or> lookup_service s serviceName = InheritedNumber
      then (s, [Log Debug ''sync - service:'',
                Log Warn ''received sync update for unsubscribed service''])
      else (cache_write serviceName state s,
            [Log Debug ''sync - service:'', Emit (''sync:'' @ serviceName) [Val state]]))"

text \<open>\<^verbatim>\<open>reportError\<close>: a general error for the user of the library.\<close>

definition reportError :: "jsval \<Rightarrow> effect list" where
  "reportError e = [Log Err ''error reported'', Emit ''error'' [Kind GENERAL, Val e]]"

text \<open>The handlers installed by \<^verbatim>\<open>_setupErrorHandlers\<close>.\<close>

definition on_connect_error :: "jsval \<Rightarrow> client \<Rightarrow> client \<times> effect list" where
  "on_connect_error e s = (s\<lparr>ready := False\<rparr>, [Emit ''error'' [Kind GENERAL, Val e]])"

definition on_connect_timeout :: "jsval \<Rightarrow> client \<Rightarrow> client \<times> effect list" where
  "on_connect_timeout timeout s = (s\<lparr>ready := False\<rparr>, [Emit ''error'' [Kind TIMEOUT, Val timeout]])"

definition on_authentication_timeout :: "jsval \<Rightarrow> client \<Rightarrow> client \<times> effect list" where
  "on_authentication_timeout e s =
     (s\<lparr>ready := False\<rparr>, [Emit ''error'' [Kind AUTH_TIMEOUT, Val e]])"

definition on_reconnect_failed :: "client \<Rightarrow> client \<times> effect list" where
  "on_reconnect_failed s = (s\<lparr>ready := False\<rparr>, [Emit ''error'' [Kind NO_ATTEMPTS_LEFT]])"

text \<open>
  The acknowledgement of a \<^verbatim>\<open>subscribe\<close> or \<^verbatim>\<open>unsubscribe\<close> request: the promise of
  \<^verbatim>\<open>_socketEmit\<close> is followed by \<^verbatim>\<open>.catch(this.reportError)\<close> only.
\<close>

definition on_request_ack :: "response \<Rightarrow> client \<Rightarrow> client \<times> effect list" where
  "on_request_ack r s = (if truthy (error r) then (s, reportError (error r)) else (s, []))"

subsection \<open>The public methods\<close>

text \<open>
  \<^verbatim>\<open>service(name, listener)\<close>: the wrapped listener goes on the bus, a truthy cached state is
  delivered at once, and the registry counts the listener; a new name is announced to the
  server only when the client is ready. When \<^verbatim>\<open>name in this._services\<close> holds, the
  increment \<^verbatim>\<open>this._services[name].listeners++\<close> goes to whatever the read gives: the own
  entry; an inherited function, on which it stores \<^verbatim>\<open>NaN\<close>; \<^verbatim>\<open>Object.prototype\<close>, which
  thereby gets the property \<^verbatim>\<open>listeners\<close>; or the inherited number, on which the store
  throws a TypeError in strict code.
\<close>

definition service ::
  "string \<Rightarrow> nat \<Rightarrow> client \<Rightarrow> exn \<times> effect list + client \<times> effect list" where
  "service name listener s =
     (let staleState = cached s name;
          first = BusOn (''sync:'' @ name) (Wrapped listener)
                  # (if truthy_value staleState
                     then [Log Debug ''found stale state for service'',
                           Invoke (Wrapped listener) staleState]
                     else [])
      in case lookup_service s name of
           Missing \<Rightarrow>
             Inr (s\<lparr>services := insert_own name 1 (services s)\<rparr>,
                  first @ (if ready s
                           then [Log Debug ''subscribe to service:'',
                                 Send (Subscribe (ServiceKey name))]
                           else []))
         | Own n \<Rightarrow>
             Inr (s\<lparr>services := AList.update name (n + 1) (services s)\<rparr>,
                  first @ [Log Debug ''already subscribed to sync from''])
         | InheritedFunction \<Rightarrow>
             Inr (s, first @ [Log Debug ''already subscribed to sync from''])
         | InheritedPrototype \<Rightarrow>
             Inr (s\<lparr>protoListeners := True\<rparr>,
                  first @ [Log Debug ''already subscribed to sync from''])
         | InheritedNumber \<Rightarrow>
             Inl (TypeError, first @ [Log Debug ''already subscribed to sync from'']))"

text \<open>
  The view object returned by \<^verbatim>\<open>service\<close>: its two getters, and its \<^verbatim>\<open>unsubscribe\<close>.
\<close>

definition view_ready :: "client \<Rightarrow> string \<Rightarrow> bool" where
  "view_ready s name = (cached s name \<noteq> Wire JNull)"

definition view_state :: "client \<Rightarrow> string \<Rightarrow> pvalue" where
  "view_state s name = (if truthy_value (cached s name) then cached s name else Wire JNull)"

text \<open>
  The disposer reads \<^verbatim>\<open>this.socket.ready\<close>, a property of the transport's socket object
  that the client never writes; its truthiness at the call is the first argument. The
  decrement \<^verbatim>\<open>this._services[name].listeners--\<close> throws a TypeError when the read gives
  \<^verbatim>\<open>undefined\<close> or the inherited number, after the listener was removed from the bus: the
  left summand, with the effects up to the throw. On an inherited function or on
  \<^verbatim>\<open>Object.prototype\<close> it stores \<^verbatim>\<open>NaN\<close>, and \<^verbatim>\<open>NaN <= 0\<close> is false.
\<close>

definition unsubscribe ::
  "bool \<Rightarrow> string \<Rightarrow> nat \<Rightarrow> client \<Rightarrow> exn \<times> effect list + client \<times> effect list" where
  "unsubscribe socket_ready name listener s =
     (let first = [Log Debug ''listener unsubscribed from service'',
                   BusOff (''sync:'' @ name) (Raw listener)]
      in case lookup_service s name of
           Missing \<Rightarrow> Inl (TypeError, first)
         | InheritedNumber \<Rightarrow> Inl (TypeError, first)
         | InheritedFunction \<Rightarrow> Inr (s, first)
         | InheritedPrototype \<Rightarrow> Inr (s\<lparr>protoListeners := True\<rparr>, first)
         | Own n \<Rightarrow>
             if n - 1 \<le> 0
             then Inr (s\<lparr>services := AList.delete name (services s)\<rparr>,
                       first @ [Log Debug ''removing service from sync'']
                       @ (if socket_ready then [Send (Unsubscribe (ServiceKey name))] else []))
             else Inr (s\<lparr>services := AList.update name (n - 1) (services s)\<rparr>, first))"

subsection \<open>Runs\<close>

text \<open>
  An event of the socket with its payload. \<^verbatim>\<open>Other\<close> is an event for which the client
  installs no handler of its own.
\<close>

datatype sock_event =
    Connect
  | Disconnect string
  | ReconnectAttempt jsval
  | Sync string jsval
  | ConnectError jsval
  | ConnectTimeout jsval
  | AuthenticationTimeout jsval
  | ReconnectFailed
  | Other string "jsval list"

fun event_name :: "sock_event \<Rightarrow> string" where
  "event_name Connect = ''connect''"
| "event_name (Disconnect reason) = ''disconnect''"
| "event_name (ReconnectAttempt attempt) = ''reconnect_attempt''"
| "event_name (Sync serviceName state) = ''sync''"
| "event_name (ConnectError e) = ''connect_error''"
| "event_name (ConnectTimeout t) = ''connect_timeout''"
| "event_name (AuthenticationTimeout e) = ''authentication_timeout''"
| "event_name ReconnectFailed = ''reconnect_failed''"
| "event_name (Other name args) = name"

fun event_args :: "sock_event \<Rightarrow> jsval list" where
  "event_args Connect = []"
| "event_args (Disconnect reason) = [JStr reason]"
| "event_args (ReconnectAttempt attempt) = [attempt]"
| "event_args (Sync serviceName state) =
     [JObj [(''service'', JStr serviceName), (''state'', state)]]"
| "event_args (ConnectError e) = [e]"
| "event_args (ConnectTimeout t) = [t]"
| "event_args (AuthenticationTimeout e) = [JObj [(''error'', e)]]"
| "event_args ReconnectFailed = []"
| "event_args (Other name args) = args"

text \<open>The listener that \<^verbatim>\<open>this.socket.on\<close> installed for the event.\<close>

fun handle :: "sock_event \<Rightarrow> client \<Rightarrow> client \<times> effect list" where
  "handle Connect s = on_connect s"
| "handle (Disconnect reason) s = on_disconnect reason s"
| "handle (ReconnectAttempt attempt) s = on_reconnect_attempt attempt s"
| "handle (Sync serviceName state) s = on_sync serviceName state s"
| "handle (ConnectError e) s = on_connect_error e s"
| "handle (ConnectTimeout t) s = on_connect_timeout t s"
| "handle (AuthenticationTimeout e) s = on_authentication_timeout e s"
| "handle ReconnectFailed s = on_reconnect_failed s"
| "handle (Other name args) s = (s, [])"

text \<open>
  The replaced \<^verbatim>\<open>socket.onevent\<close>: a packet is dispatched under its own name and then
  once more under \<^verbatim>\<open>'*'\<close>, with its name as first argument.
\<close>

definition onevent :: "sock_event \<Rightarrow> client \<Rightarrow> client \<times> effect list" where
  "onevent packet s =
     (let (s1, e1) = handle packet s;
          (s2, e2) = on_star (event_name packet) (event_args packet) s1
      in (s2, e1 @ e2))"

text \<open>
  What can happen to a client: the socket emits an event itself (\<^verbatim>\<open>Local\<close>), a packet of
  the server passes through \<^verbatim>\<open>onevent\<close>, the acknowledgement callback of a request is
  called, or the application calls \<^verbatim>\<open>service\<close> or a disposer. An exception of
  \<^verbatim>\<open>service\<close> or of the disposer reaches the application and leaves the fields as they
  were.
\<close>

datatype input =
    Local sock_event
  | Packet sock_event
  | Ack request response
  | CallService string nat
  | CallUnsubscribe bool string nat

fun step :: "input \<Rightarrow> client \<Rightarrow> client \<times> effect list" where
  "step (Local e) s = handle e s"
| "step (Packet e) s = onevent e s"
| "step (Ack (Authenticate p) r) s = on_authenticate_ack r s"
| "step (Ack (Subscribe p) r) s = on_request_ack r s"
| "step (Ack (Unsubscribe p) r) s = on_request_ack r s"
| "step (CallService name listener) s =
     (case service name listener s of
        Inl (x, es) \<Rightarrow> (s, es @ [Raise x])
      | Inr res \<Rightarrow> res)"
| "step (CallUnsubscribe socket_ready name listener) s =
     (case unsubscribe socket_ready name listener s of
        Inl (x, es) \<Rightarrow> (s, es @ [Raise x])
      | Inr res \<Rightarrow> res)"

fun run :: "input list \<Rightarrow> client \<Rightarrow> client \<times> effect list" where
  "run [] s = (s, [])"
| "run (i # rest) s =
     (let (s1, e1) = step i s; (s2, e2) = run rest s1 in (s2, e1 @ e2))"

text \<open>The requests sent and the bus emissions among a list of effects.\<close>

fun sent :: "effect list \<Rightarrow> request list" where
  "sent [] = []"
| "sent (Send q # es) = q # sent es"
| "sent (e # es) = sent es"

fun emitted :: "effect list \<Rightarrow> (string \<times> arg list) list" where
  "emitted [] = []"
| "emitted (Emit name args # es) = (name, args) # emitted es"
| "emitted (e # es) = emitted es"

text \<open>An acknowledgement of \<^verbatim>\<open>authenticate\<close> without an error: the promise resolves.\<close>

fun auth_resolved :: "input \<Rightarrow> bool" where
  "auth_resolved (Ack (Authenticate p) r) = (\<not> truthy (error r))"
| "auth_resolved i = False"

section \<open>The older build under dist\<close>

text \<open>
  The bundled build (\<^verbatim>\<open>MissionControlClient.prototype.subscribe\<close>) keeps two queues beside
  the registry and waits for an \<^verbatim>\<open>authenticated\<close> event. \<^verbatim>\<open>socket.connected\<close> belongs
  to the transport; its value at a call is an argument. Its registry is an object literal
  too: \<^verbatim>\<open>serverEvent in this._subscriptions\<close> holds for the names of
  \<^verbatim>\<open>Object.prototype\<close> as well.
\<close>

text \<open>A count of the registry: the decrement of anything but a number stores \<^verbatim>\<open>NaN\<close>.\<close>

datatype jsnum = Num int | NaN

record dist_client =
  subscriptions :: "(string \<times> jsnum) list"
  subscribeTo :: "string list"
  unsubscribeFrom :: "string list"

definition new_dist_client :: dist_client where
  "new_dist_client = \<lparr>subscriptions = [], subscribeTo = [], unsubscribeFrom = []\<rparr>"

definition dist_on_star :: "string \<Rightarrow> jsval list \<Rightarrow> dist_client \<Rightarrow> dist_client \<times> effect list" where
  "dist_on_star event args s =
     (if event \<notin> set [''connect'', ''disconnect'', ''reconnecting'', ''error'']
      then (s, [Emit event (map Val args)])
      else (s, []))"

text \<open>The loops \<^verbatim>\<open>while (queue.length > 0) emit(..., queue.shift())\<close>.\<close>

fun drain :: "(string \<Rightarrow> request) \<Rightarrow> string list \<Rightarrow> effect list" where
  "drain mk [] = []"
| "drain mk (key # queue) = Send (mk key) # drain mk queue"

definition dist_on_authenticated :: "dist_client \<Rightarrow> dist_client \<times> effect list" where
  "dist_on_authenticated s =
     (s\<lparr>subscribeTo := [], unsubscribeFrom := []\<rparr>,
      drain (\<lambda>k. Subscribe (EventKey k)) (subscribeTo s)
      @ drain (\<lambda>k. Unsubscribe (EventKey k)) (unsubscribeFrom s)
      @ [Emit ''connect'' []])"

definition dist_subscribe ::
  "bool \<Rightarrow> string \<Rightarrow> nat \<Rightarrow> dist_client \<Rightarrow> dist_client \<times> effect list" where
  "dist_subscribe connected serverEvent listener s =
     (if map_of (subscriptions s) serverEvent = None
         \<and> serverEvent \<notin> set object_prototype_names
      then if connected
           then (s\<lparr>subscriptions := AList.update serverEvent (Num 1) (subscriptions s)\<rparr>,
                 [SocketOn serverEvent (Raw listener), Send (Subscribe (EventKey serverEvent))])
           else (s\<lparr>subscribeTo := subscribeTo s @ [serverEvent]\<rparr>,
                 [SocketOn serverEvent (Raw listener)])
      else (s, [SocketOn serverEvent (Raw listener)]))"

text \<open>
  \<^verbatim>\<open>this._subscriptions[serverEvent]--\<close> stores the decremented count, \<^verbatim>\<open>NaN\<close> for
  anything that is not an own count; for \<^verbatim>\<open>__proto__\<close> the store reaches the setter,
  which ignores a number.
\<close>

fun decrement :: "jsnum option \<Rightarrow> jsnum" where
  "decrement None = NaN"
| "decrement (Some NaN) = NaN"
| "decrement (Some (Num n)) = Num (n - 1)"

definition dist_unsubscribe ::
  "bool \<Rightarrow> string \<Rightarrow> nat \<Rightarrow> dist_client \<Rightarrow> dist_client \<times> effect list" where
  "dist_unsubscribe connected serverEvent listener s =
     (if connected
      then (let c = decrement (map_of (subscriptions s) serverEvent)
            in if c = Num 0
               then (s\<lparr>subscriptions := AList.delete serverEvent (subscriptions s)\<rparr>,
                     [SocketOff serverEvent (Raw listener),
                      Send (Unsubscribe (EventKey serverEvent))])
               else if serverEvent = ''__proto__''
               then (s, [SocketOff serverEvent (Raw listener)])
               else (s\<lparr>subscriptions := AList.update serverEvent c (subscriptions s)\<rparr>,
                     [SocketOff serverEvent (Raw listener)]))
      else (s\<lparr>unsubscribeFrom := unsubscribeFrom s @ [serverEvent]\<rparr>,
            [SocketOff serverEvent (Raw listener)]))"

section \<open>Fixtures and projections used by the statements\<close>

text \<open>The client constructed with \<^verbatim>\<open>("wss://host", "token123")\<close>.\<close>

definition fresh_client :: client where
  "fresh_client = projr (new_client ''wss://host'' ''token123'')"

text \<open>An acknowledgement without an \<^verbatim>\<open>error\<close> property.\<close>

definition no_error :: response where
  "no_error = \<lparr>error = JUndefined\<rparr>"

text \<open>The emissions of the normalized \<^verbatim>\<open>connect\<close> event among a list of effects.\<close>

definition connect_emissions :: "effect list \<Rightarrow> (string \<times> arg list) list" where
  "connect_emissions es = filter (\<lambda>e. fst e = ''connect'') (emitted es)"


text \<open>
  A key for which \<^verbatim>\<open>_services\<close> behaves as a dictionary: it names no property of
  \<^verbatim>\<open>Object.prototype\<close>, neither a standard one nor the \<^verbatim>\<open>listeners\<close> that the client
  may have added.
\<close>

definition plain :: "client \<Rightarrow> string \<Rightarrow> bool" where
  "plain s K = (K \<notin> set object_prototype_names \<and> \<not> (protoListeners s \<and> K = ''listeners''))"

text \<open>Calls of the disposers of one key, each with the truthiness of \<^verbatim>\<open>socket.ready\<close>.\<close>

definition disposer_calls :: "string \<Rightarrow> (bool \<times> nat) list \<Rightarrow> input list" where
  "disposer_calls K ds = map (\<lambda>d. CallUnsubscribe (fst d) K (snd d)) ds"

section \<open>Effect lists\<close>

lemma fresh_client_eq:
  "fresh_client = \<lparr>authToken = ''token123'', ready = False, services = [], stateCache = Map.empty,
     cachePrototype = ObjectProto, protoListeners = False\<rparr>"
  by (simp add: fresh_client_def new_client_def)

lemma sent_append: "sent (xs @ ys) = sent xs @ sent ys"
  by (induction xs rule: sent.induct) simp_all

lemma emitted_append: "emitted (xs @ ys) = emitted xs @ emitted ys"
  by (induction xs rule: emitted.induct) simp_all

lemma sent_resubscribe: "sent (resubscribe ks) = map (\<lambda>k. Subscribe (ServiceKey k)) ks"
  by (induction ks) simp_all

lemma emitted_resubscribe: "emitted (resubscribe ks) = []"
  by (induction ks) simp_all

lemma sent_drain: "sent (drain mk q) = map mk q"
  by (induction q) simp_all

lemma emitted_drain: "emitted (drain mk q) = []"
  by (induction q) simp_all

lemma run_Cons_fst: "fst (run (i # rest) s) = fst (run rest (fst (step i s)))"
  by (simp add: split_beta)

lemma run_Cons_snd: "snd (run (i # rest) s) = snd (step i s) @ snd (run rest (fst (step i s)))"
  by (simp add: split_beta)

lemma onevent_fst: "fst (onevent e s) = fst (handle e s)"
  by (simp add: onevent_def split_beta on_star_def)

lemma onevent_snd:
  "snd (onevent e s)
     = snd (handle e s) @ snd (on_star (event_name e) (event_args e) (fst (handle e s)))"
  by (simp add: onevent_def split_beta)

text \<open>A name that is neither an array index nor inherited.\<close>

lemma plain_lights:
  "array_index ''lights'' = None" "''lights'' \<notin> set object_prototype_functions"
  by (simp_all add: array_index_def is_digit_def object_prototype_functions_def)

section \<open>The normalized connect event\<close>

lemma connect_emissions_append:
  "connect_emissions (xs @ ys) = connect_emissions xs @ connect_emissions ys"
  by (simp add: connect_emissions_def emitted_append)

lemma connect_emissions_handle: "connect_emissions (snd (handle e s)) = []"
  by (cases e)
     (simp_all add: connect_emissions_def on_connect_def on_disconnect_def
        on_reconnect_attempt_def on_sync_def on_connect_error_def on_connect_timeout_def
        on_authentication_timeout_def on_reconnect_failed_def)

lemma connect_emissions_star: "connect_emissions (snd (on_star event args s)) = []"
  by (simp add: connect_emissions_def on_star_def)

lemma connect_emissions_onevent: "connect_emissions (snd (onevent e s)) = []"
  by (simp add: onevent_snd connect_emissions_append connect_emissions_handle
        connect_emissions_star)

lemma connect_emissions_service:
  "connect_emissions (snd (step (CallService name l) s)) = []"
  by (simp add: service_def connect_emissions_def Let_def emitted_append
        split: entry.splits)

lemma connect_emissions_unsubscribe:
  "connect_emissions (snd (step (CallUnsubscribe b name l) s)) = []"
  by (simp add: unsubscribe_def connect_emissions_def Let_def emitted_append
        split: entry.splits)

lemma connect_emissions_ack:
  "connect_emissions (snd (step (Ack q r) s))
     = (if auth_resolved (Ack q r) then [(''connect'', [])] else [])"
  by (cases q)
     (simp_all add: on_authenticate_ack_def on_request_ack_def reportError_def
        connect_emissions_def emitted_append emitted_resubscribe)

lemma connect_emissions_step:
  "connect_emissions (snd (step i s)) = (if auth_resolved i then [(''connect'', [])] else [])"
proof (cases i)
  case (Local e)
  then show ?thesis by (simp add: connect_emissions_handle)
next
  case (Packet e)
  then show ?thesis by (simp add: connect_emissions_onevent)
next
  case (Ack q r)
  then show ?thesis using connect_emissions_ack by simp
next
  case (CallService name l)
  then show ?thesis using connect_emissions_service [of name l s] by simp
next
  case (CallUnsubscribe b name l)
  then show ?thesis using connect_emissions_unsubscribe [of b name l s] by simp
qed

lemma connect_emissions_run:
  "connect_emissions (snd (run is s)) = map (\<lambda>i. (''connect'', [])) (filter auth_resolved is)"
proof (induction "is" arbitrary: s)
  case Nil
  then show ?case by (simp add: connect_emissions_def)
next
  case (Cons i rest)
  have "connect_emissions (snd (run rest (fst (step i s))))
      = map (\<lambda>i. (''connect'', [])) (filter auth_resolved rest)"
    by (rule Cons.IH)
  then show ?case
    by (simp only: run_Cons_snd connect_emissions_append connect_emissions_step) simp
qed

text \<open>
  Claim C1. In every run, from any state, the bus receives the normalized \<^verbatim>\<open>connect\<close>
  exactly once for each acknowledgement of \<^verbatim>\<open>authenticate\<close> that carries no error, and
  at no other input. The transport's own \<^verbatim>\<open>connect\<close> puts nothing on the bus, whether the
  socket emits it or a packet carries it: it sends the \<^verbatim>\<open>authenticate\<close> request. The
  acknowledgement emits \<^verbatim>\<open>connect\<close> alone when it resolves and one \<^verbatim>\<open>error\<close> when it
  rejects.
\<close>

theorem connect_only_after_authentication:
  "connect_emissions (snd (run is s))
     = replicate (length (filter auth_resolved is)) (''connect'', []) \<and>
   emitted (snd (step (Local Connect) s)) = [] \<and>
   emitted (snd (step (Packet Connect) s)) = [] \<and>
   sent (snd (step (Local Connect) s)) = [Authenticate (Token (authToken s))] \<and>
   emitted (snd (step (Ack (Authenticate p) r) s))
     = (if truthy (error r) then [(''error'', [Kind AUTH_FAILED, Val (error r)])]
        else [(''connect'', [])])"
  by (simp add: connect_emissions_run map_replicate_const on_connect_def onevent_def
        on_star_def on_authenticate_ack_def emitted_append emitted_resubscribe)

theorem connect_only_after_authentication_witness:
  "emitted (snd (run [Local Connect] fresh_client)) = [] \<and>
   connect_emissions (snd (run [Local Connect, Ack (Authenticate (Token ''token123'')) no_error]
      fresh_client)) = [(''connect'', [])] \<and>
   emitted (snd (step (Ack (Authenticate (Token ''token123'')) no_error)
      (fst (step (Local Connect) fresh_client)))) = [(''connect'', [])]"
  using connect_only_after_authentication
    [of "[Local Connect, Ack (Authenticate (Token ''token123'')) no_error]" fresh_client
        "Token ''token123''" no_error]
    connect_only_after_authentication
    [of "[]" "fst (step (Local Connect) fresh_client)" "Token ''token123''" no_error]
  by (simp add: no_error_def)

section \<open>Disconnect reasons\<close>

text \<open>
  Claim C2. The classification depends on the reason string alone:
  \<^verbatim>\<open>io server disconnect\<close> gives SERVER_DISCONNECT, \<^verbatim>\<open>io client disconnect\<close> and
  \<^verbatim>\<open>ping timeout\<close> give CLIENT_DISCONNECT, every other string gives UNKNOWN, and the
  \<^verbatim>\<open>disconnect\<close> handler emits one normalized \<^verbatim>\<open>disconnect\<close> carrying that value.
\<close>

theorem disconnect_reason_classification:
  "disconnectReason ''io server disconnect'' = SERVER_DISCONNECT \<and>
   disconnectReason ''io client disconnect'' = CLIENT_DISCONNECT \<and>
   disconnectReason ''ping timeout'' = CLIENT_DISCONNECT \<and>
   (reason \<notin> {''io server disconnect'', ''io client disconnect'', ''ping timeout''}
      \<longrightarrow> disconnectReason reason = UNKNOWN) \<and>
   emitted (snd (step (Local (Disconnect reason)) s))
     = [(''disconnect'', [Reason (disconnectReason reason)])]"
  by (simp add: disconnectReason_def on_disconnect_def)

theorem disconnect_reason_classification_witness:
  "''transport close'' \<notin> {''io server disconnect'', ''io client disconnect'', ''ping timeout''} \<and>
   disconnectReason ''transport close'' = UNKNOWN \<and>
   emitted (snd (step (Local (Disconnect ''transport close'')) fresh_client))
     = [(''disconnect'', [Reason UNKNOWN])]"
  using disconnect_reason_classification [of "''transport close''" fresh_client]
  by simp

section \<open>The unsubscribe request\<close>

text \<open>
  Claim C3, evaluated at a run the code can take. The client connects and authenticates, so
  its readiness flag is true; \<^verbatim>\<open>service('lights', l)\<close> is called once and its disposer
  once. The disposer tests \<^verbatim>\<open>this.socket.ready\<close>, which a socket.io socket does not
  have and the client never sets, so the test is false: the key leaves the registry, and the
  only requests of the whole run are \<^verbatim>\<open>authenticate\<close> and \<^verbatim>\<open>subscribe\<close>. No
  \<^verbatim>\<open>unsubscribe\<close> request is sent.
\<close>

theorem unsubscribe_request_missing:
  "ready (fst (run [Local Connect, Ack (Authenticate (Token ''token123'')) no_error,
                    CallService ''lights'' 0] fresh_client)) \<and>
   map_of (services (fst (run [Local Connect, Ack (Authenticate (Token ''token123'')) no_error,
                    CallService ''lights'' 0, CallUnsubscribe False ''lights'' 0] fresh_client)))
     ''lights'' = None \<and>
   sent (snd (run [Local Connect, Ack (Authenticate (Token ''token123'')) no_error,
                    CallService ''lights'' 0, CallUnsubscribe False ''lights'' 0] fresh_client))
     = [Authenticate (Token ''token123''), Subscribe (ServiceKey ''lights'')]"
  by (simp add: fresh_client_eq no_error_def on_connect_def on_authenticate_ack_def for_in_def
        service_def cached_def inherited_def unsubscribe_def lookup_service_def insert_own_def
        plain_lights)


section \<open>Own keys\<close>

lemma map_of_place:
  "map_of xs k = None \<Longrightarrow> map_of (place i (k, v) xs) = (map_of xs)(k \<mapsto> v)"
proof (induction xs)
  case Nil
  then show ?case by simp
next
  case (Cons p rest)
  have ne: "fst p \<noteq> k" and rest: "map_of rest k = None"
    using Cons.prems by (cases p; simp split: if_splits)+
  have ih: "map_of (place i (k, v) rest) = (map_of rest)(k \<mapsto> v)"
    using rest by (rule Cons.IH)
  show ?case using ne ih
    by (cases p) (auto simp: fun_upd_twist split: option.splits)
qed

lemma map_of_insert_own:
  "map_of xs k = None \<Longrightarrow> map_of (insert_own k v xs) = (map_of xs)(k \<mapsto> v)"
  by (auto simp: insert_own_def map_of_place map_add_def fun_eq_iff split: option.splits)

lemma set_place: "set (place i kv xs) = insert kv (set xs)"
  by (induction xs) (auto split: option.splits)

lemma distinct_place:
  "distinct (map fst xs) \<Longrightarrow> fst kv \<notin> fst ` set xs \<Longrightarrow> distinct (map fst (place i kv xs))"
  by (induction xs) (auto simp: set_place split: option.splits)

lemma distinct_insert_own:
  "distinct (map fst xs) \<Longrightarrow> map_of xs k = None \<Longrightarrow> distinct (map fst (insert_own k v xs))"
  by (auto simp: insert_own_def distinct_place map_of_eq_None_iff split: option.splits)

lemma lookup_service_plain:
  "plain s K \<Longrightarrow>
   lookup_service s K = (case map_of (services s) K of Some n \<Rightarrow> Own n | None \<Rightarrow> Missing)"
  by (auto simp: plain_def lookup_service_def object_prototype_names_def split: option.splits)

lemma lookup_service_Own: "lookup_service s K = Own n \<longleftrightarrow> map_of (services s) K = Some n"
  by (auto simp: lookup_service_def split: option.splits)

lemma lookup_service_Missing: "lookup_service s K = Missing \<Longrightarrow> map_of (services s) K = None"
  by (auto simp: lookup_service_def split: option.splits if_splits)


text \<open>
  The counting itself is right for a plain key. After \<open>n\<close> calls of \<^verbatim>\<open>service\<close> on a key
  that was not registered and \<open>n\<close> calls of its disposers, the key is out of the registry;
  the \<^verbatim>\<open>unsubscribe\<close> request is sent exactly when \<^verbatim>\<open>socket.ready\<close> was truthy at the
  last disposal, whatever the readiness flag of the client.
\<close>

lemma service_registers:
  "plain s K \<Longrightarrow>
   map_of (services (fst (step (CallService K l) s))) K
     = Some ((case map_of (services s) K of None \<Rightarrow> 0 | Some c \<Rightarrow> c) + 1) \<and>
   protoListeners (fst (step (CallService K l) s)) = protoListeners s"
  by (simp add: service_def Let_def lookup_service_plain update_conv' map_of_insert_own
        split: option.splits)

lemma service_keeps_plain: "plain s K \<Longrightarrow> plain (fst (step (CallService K l) s)) K"
  using service_registers [of s K l] by (simp add: plain_def)

lemma service_calls_count:
  "plain s K \<Longrightarrow> ls \<noteq> [] \<Longrightarrow>
   map_of (services (fst (run (map (CallService K) ls) s))) K
     = Some ((case map_of (services s) K of None \<Rightarrow> 0 | Some c \<Rightarrow> c) + int (length ls)) \<and>
   plain (fst (run (map (CallService K) ls) s)) K"
proof (induction ls arbitrary: s)
  case Nil
  then show ?case by simp
next
  case (Cons l rest)
  let ?s1 = "fst (step (CallService K l) s)"
  have p1: "plain ?s1 K" using Cons.prems(1) by (rule service_keeps_plain)
  have r1: "map_of (services ?s1) K
      = Some ((case map_of (services s) K of None \<Rightarrow> 0 | Some c \<Rightarrow> c) + 1)"
    using service_registers [OF Cons.prems(1), of l] by simp
  show ?case
  proof (cases "rest = []")
    case True
    then show ?thesis using r1 p1 by (simp add: split_beta)
  next
    case False
    have "map_of (services (fst (run (map (CallService K) rest) ?s1))) K
        = Some ((case map_of (services ?s1) K of None \<Rightarrow> 0 | Some c \<Rightarrow> c) + int (length rest))
        \<and> plain (fst (run (map (CallService K) rest) ?s1)) K"
      using p1 False by (rule Cons.IH)
    then show ?thesis
      by (simp only: list.map run_Cons_fst r1) simp
  qed
qed

lemma disposer_step:
  "plain s K \<Longrightarrow> map_of (services s) K = Some n \<Longrightarrow>
   map_of (services (fst (step (CallUnsubscribe b K l) s))) K
     = (if n \<le> 1 then None else Some (n - 1)) \<and>
   sent (snd (step (CallUnsubscribe b K l) s))
     = (if n \<le> 1 \<and> b then [Unsubscribe (ServiceKey K)] else []) \<and>
   plain (fst (step (CallUnsubscribe b K l) s)) K"
  by (simp add: unsubscribe_def Let_def lookup_service_plain update_conv' delete_conv'
        sent_append plain_def)

lemma disposers_count:
  "plain s K \<Longrightarrow> map_of (services s) K = Some (int (length ds)) \<Longrightarrow> ds \<noteq> [] \<Longrightarrow>
   map_of (services (fst (run (disposer_calls K ds) s))) K = None \<and>
   sent (snd (run (disposer_calls K ds) s))
     = (if fst (last ds) then [Unsubscribe (ServiceKey K)] else [])"
proof (induction ds arbitrary: s)
  case Nil
  then show ?case by simp
next
  case (Cons d rest)
  let ?s1 = "fst (step (CallUnsubscribe (fst d) K (snd d)) s)"
  have st: "map_of (services ?s1) K
       = (if int (length (d # rest)) \<le> 1 then None else Some (int (length (d # rest)) - 1))"
    and sn: "sent (snd (step (CallUnsubscribe (fst d) K (snd d)) s))
       = (if int (length (d # rest)) \<le> 1 \<and> fst d then [Unsubscribe (ServiceKey K)] else [])"
    and p1: "plain ?s1 K"
    using disposer_step [OF Cons.prems(1,2), of "fst d" "snd d"] by simp_all
  show ?case
  proof (cases "rest = []")
    case True
    then show ?thesis using st sn by (simp add: disposer_calls_def split_beta)
  next
    case False
    have "map_of (services ?s1) K = Some (int (length rest))" using st False by simp
    with p1 have ih: "map_of (services (fst (run (disposer_calls K rest) ?s1))) K = None \<and>
        sent (snd (run (disposer_calls K rest) ?s1))
          = (if fst (last rest) then [Unsubscribe (ServiceKey K)] else [])"
      using False by (rule Cons.IH)
    have "sent (snd (step (CallUnsubscribe (fst d) K (snd d)) s)) = []"
      using sn False by (cases rest) simp_all
    then show ?thesis using ih False
      by (simp add: disposer_calls_def run_Cons_fst run_Cons_snd sent_append
            del: run.simps step.simps)
  qed
qed

lemma reference_counting:
  assumes "plain s K" and "map_of (services s) K = None"
    and "ls \<noteq> []" and "length ds = length ls"
  shows "map_of (services (fst (run (disposer_calls K ds)
            (fst (run (map (CallService K) ls) s))))) K = None \<and>
         sent (snd (run (disposer_calls K ds) (fst (run (map (CallService K) ls) s))))
           = (if fst (last ds) then [Unsubscribe (ServiceKey K)] else [])"
proof -
  have "map_of (services (fst (run (map (CallService K) ls) s))) K = Some (int (length ds))"
    and "plain (fst (run (map (CallService K) ls) s)) K"
    using service_calls_count [OF assms(1,3)] assms(2,4) by simp_all
  moreover have "ds \<noteq> []" using assms(3,4) by auto
  ultimately show ?thesis using disposers_count by blast
qed

text \<open>
  The older build never increments a count: after two \<^verbatim>\<open>subscribe\<close> calls and two disposer
  calls on a connected socket, one \<^verbatim>\<open>unsubscribe\<close> request was sent, by the first
  disposer, and the second left the key in the registry with the count \<^verbatim>\<open>NaN\<close>.
\<close>

lemma dist_second_disposer_stores_NaN:
  "map_of (subscriptions (fst (dist_unsubscribe True ''a'' 1
      (fst (dist_unsubscribe True ''a'' 0
        (fst (dist_subscribe True ''a'' 1
          (fst (dist_subscribe True ''a'' 0 new_dist_client))))))))) ''a'' = Some NaN"
  by (simp add: dist_subscribe_def dist_unsubscribe_def new_dist_client_def
        object_prototype_names_def object_prototype_functions_def)


section \<open>Subscribing while not ready\<close>

text \<open>The registry has one entry for a key, in every state a client can reach.\<close>

lemma services_handle: "services (fst (handle e s)) = services s"
  by (cases e)
     (simp_all add: on_connect_def on_disconnect_def cache_write_def
        on_reconnect_attempt_def on_sync_def on_connect_error_def on_connect_timeout_def
        on_authentication_timeout_def on_reconnect_failed_def split: jsval.splits)

lemma services_ack: "services (fst (step (Ack q r) s)) = services s"
  by (cases q) (simp_all add: on_authenticate_ack_def on_request_ack_def)

lemma distinct_service:
  "distinct (map fst (services s)) \<Longrightarrow>
   distinct (map fst (services (fst (step (CallService name l) s))))"
  by (auto simp: service_def Let_def distinct_update distinct_insert_own
        lookup_service_Missing split: entry.splits)

lemma distinct_unsubscribe:
  "distinct (map fst (services s)) \<Longrightarrow>
   distinct (map fst (services (fst (step (CallUnsubscribe b name l) s))))"
  by (simp add: unsubscribe_def Let_def distinct_update distinct_delete split: entry.splits)

lemma distinct_step:
  assumes "distinct (map fst (services s))"
  shows "distinct (map fst (services (fst (step i s))))"
proof (cases i)
  case (Local e)
  then show ?thesis using assms by (simp add: services_handle)
next
  case (Packet e)
  then show ?thesis using assms by (simp add: onevent_fst services_handle)
next
  case (Ack q r)
  then show ?thesis using assms services_ack [of q r s] by simp
next
  case (CallService name l)
  then show ?thesis using assms distinct_service [of s name l] by simp
next
  case (CallUnsubscribe b name l)
  then show ?thesis using assms distinct_unsubscribe [of s b name l] by simp
qed

lemma distinct_run:
  "distinct (map fst (services s)) \<Longrightarrow> distinct (map fst (services (fst (run is s))))"
proof (induction "is" arbitrary: s)
  case Nil
  then show ?case by simp
next
  case (Cons i rest)
  have "distinct (map fst (services (fst (step i s))))"
    using Cons.prems by (rule distinct_step)
  then have "distinct (map fst (services (fst (run rest (fst (step i s))))))"
    by (rule Cons.IH)
  then show ?case by (simp only: run_Cons_fst)
qed

lemma distinct_new_client: "new_client url tok = Inr s0 \<Longrightarrow> distinct (map fst (services s0))"
  by (auto simp: new_client_def split: if_splits)

text \<open>
  A call of \<^verbatim>\<open>service\<close> with a plain key on a client that is not ready sends nothing.
\<close>

lemma service_offline:
  "plain s K \<Longrightarrow> \<not> ready s \<Longrightarrow>
   sent (snd (step (CallService K l) s)) = [] \<and> \<not> ready (fst (step (CallService K l) s))"
  by (simp add: service_def Let_def sent_append lookup_service_plain split: option.splits)

lemma services_offline_run:
  "plain s K \<Longrightarrow> \<not> ready s \<Longrightarrow>
   sent (snd (run (map (CallService K) ls) s)) = [] \<and>
   \<not> ready (fst (run (map (CallService K) ls) s))"
proof (induction ls arbitrary: s)
  case Nil
  then show ?case by simp
next
  case (Cons l rest)
  let ?s1 = "fst (step (CallService K l) s)"
  have a: "sent (snd (step (CallService K l) s)) = []" "\<not> ready ?s1"
    using service_offline [OF Cons.prems, of l] by simp_all
  have p1: "plain ?s1 K" using Cons.prems(1) by (rule service_keeps_plain)
  show ?case using Cons.IH [OF p1 a(2)] a
    by (simp only: list.map run_Cons_fst run_Cons_snd sent_append) simp
qed

lemma count_distinct: "distinct ks \<Longrightarrow> K \<in> set ks \<Longrightarrow> length (filter (\<lambda>k. k = K) ks) = 1"
  by (induction ks) (auto simp: filter_empty_conv)

lemma count_for_in:
  assumes "distinct (map fst (services s))" and "map_of (services s) K \<noteq> None"
  shows "length (filter (\<lambda>q. q = Subscribe (ServiceKey K))
           (map (\<lambda>k. Subscribe (ServiceKey k)) (for_in s))) = 1"
proof -
  have "K \<in> set (map fst (services s))" using assms(2) by (simp add: map_of_eq_None_iff)
  then have "length (filter (\<lambda>k. k = K) (map fst (services s))) = 1"
    using assms(1) by (rule count_distinct [rotated])
  moreover have "length (filter (\<lambda>q. q = Subscribe (ServiceKey K))
           (map (\<lambda>k. Subscribe (ServiceKey k)) (for_in s)))
       = length (filter (\<lambda>k. k = K) (for_in s))"
    by (simp add: filter_map comp_def)
  moreover have "filter (\<lambda>k. k = K) (for_in s) = filter (\<lambda>k. k = K) (map fst (services s))"
    using assms(2) by (auto simp: for_in_def)
  ultimately show ?thesis by simp
qed

text \<open>
  For a plain key the deferred subscription works: take any state that a constructed client
  has reached and in which it is not ready, and any non-empty sequence of \<^verbatim>\<open>service\<close>
  calls on the key. The calls send no request, and the next \<^verbatim>\<open>connect\<close> whose
  \<^verbatim>\<open>authenticate\<close> is acknowledged without error sends exactly one \<^verbatim>\<open>subscribe\<close> for it.
\<close>

lemma plain_key_subscribed_once:
  assumes "new_client url tok = Inr s0" and "s = fst (run pre s0)"
    and "plain s K" and "\<not> ready s" and "ls \<noteq> []" and "\<not> truthy (error r)"
  shows "sent (snd (run (map (CallService K) ls) s)) = [] \<and>
    length (filter (\<lambda>q. q = Subscribe (ServiceKey K))
      (sent (snd (run [Local Connect, Ack (Authenticate p) r]
         (fst (run (map (CallService K) ls) s)))))) = 1"
proof -
  let ?s1 = "fst (run (map (CallService K) ls) s)"
  have d: "distinct (map fst (services s))"
    using assms(1,2) distinct_new_client distinct_run by blast
  have d1: "distinct (map fst (services ?s1))" using d by (rule distinct_run)
  have off: "sent (snd (run (map (CallService K) ls) s)) = []"
    using services_offline_run [OF assms(3,4), of ls] by simp
  have key: "map_of (services ?s1) K \<noteq> None"
    using service_calls_count [OF assms(3,5)] by simp
  have "sent (snd (run [Local Connect, Ack (Authenticate p) r] ?s1))
      = Authenticate (Token (authToken ?s1)) # map (\<lambda>k. Subscribe (ServiceKey k)) (for_in ?s1)"
    using assms(6)
    by (simp add: on_connect_def on_authenticate_ack_def sent_append sent_resubscribe for_in_def)
  then show ?thesis using off count_for_in [OF d1 key] by simp
qed

text \<open>
  Claim C4, evaluated at a run the code can take. On a new client, which is not ready,
  \<^verbatim>\<open>service('constructor', l)\<close> is called. \<^verbatim>\<open>'constructor' in this._services\<close> holds
  through \<^verbatim>\<open>Object.prototype\<close>, so the call takes the branch for a name that is already
  subscribed: nothing is sent and nothing is registered. The transport then connects and the
  \<^verbatim>\<open>authenticate\<close> request is acknowledged without error: the only request of the whole
  run is \<^verbatim>\<open>authenticate\<close>. No \<^verbatim>\<open>subscribe\<close> request for the key is ever sent.
\<close>

theorem inherited_name_never_subscribed:
  "\<not> ready fresh_client \<and>
   sent (snd (run [CallService ''constructor'' 0] fresh_client)) = [] \<and>
   services (fst (run [CallService ''constructor'' 0] fresh_client)) = [] \<and>
   sent (snd (run [CallService ''constructor'' 0, Local Connect,
                   Ack (Authenticate (Token ''token123'')) no_error] fresh_client))
     = [Authenticate (Token ''token123'')]"
  by (simp add: fresh_client_eq no_error_def on_connect_def on_authenticate_ack_def for_in_def
        service_def cached_def inherited_def lookup_service_def object_prototype_functions_def)

text \<open>
  The older build queues the key at every call made while disconnected, and sends it as often.
\<close>

lemma dist_offline_subscribes_twice:
  "sent (snd (dist_on_authenticated
      (fst (dist_subscribe False ''a'' 1 (fst (dist_subscribe False ''a'' 0 new_dist_client))))))
     = [Subscribe (EventKey ''a''), Subscribe (EventKey ''a'')]"
  by (simp add: dist_subscribe_def dist_on_authenticated_def new_dist_client_def
        object_prototype_names_def object_prototype_functions_def)

section \<open>The ready transition\<close>

text \<open>
  Claim C5, as stated, fails in both builds. In the older build a key subscribed while
  connected stays in the registry, and the \<^verbatim>\<open>authenticated\<close> handler of the next connection
  sends no request for it. In \<^verbatim>\<open>src/index.js\<close> there is no queue to drain: a service
  dropped while offline is never unsubscribed, over the whole run below.
\<close>

theorem ready_transition_counterexample:
  "map_of (subscriptions (fst (dist_subscribe True ''update:videoQueue'' 0 new_dist_client)))
     ''update:videoQueue'' = Some (Num 1) \<and>
   sent (snd (dist_on_authenticated
          (fst (dist_subscribe True ''update:videoQueue'' 0 new_dist_client)))) = [] \<and>
   sent (snd (run [Local Connect, Ack (Authenticate (Token ''token123'')) no_error,
                   CallService ''lights'' 0, Local (Disconnect ''ping timeout''),
                   CallUnsubscribe False ''lights'' 0,
                   Local Connect, Ack (Authenticate (Token ''token123'')) no_error] fresh_client))
     = [Authenticate (Token ''token123''), Subscribe (ServiceKey ''lights''),
        Authenticate (Token ''token123'')]"
  by (simp add: fresh_client_eq no_error_def on_connect_def on_authenticate_ack_def for_in_def
        service_def cached_def inherited_def unsubscribe_def on_disconnect_def
        lookup_service_def insert_own_def plain_lights
        dist_subscribe_def new_dist_client_def dist_on_authenticated_def
        object_prototype_names_def object_prototype_functions_def)

text \<open>
  Claim C5, amended. When the acknowledgement of \<^verbatim>\<open>authenticate\<close> carries no error,
  \<^verbatim>\<open>src/index.js\<close> becomes ready and leaves the registry unchanged; as long as
  \<^verbatim>\<open>Object.prototype\<close> has no property \<^verbatim>\<open>listeners\<close>, it sends one \<^verbatim>\<open>subscribe\<close>
  request for each entry of the registry, in the registry's order, and no other request.
  It keeps no pending queue. The older build keeps both queues: its \<^verbatim>\<open>authenticated\<close>
  handler sends the pending subscriptions first to last, then the pending unsubscriptions
  first to last, and leaves both queues empty and the registry as it was.
\<close>

theorem ready_transition_requests:
  "(\<not> truthy (error r) \<longrightarrow>
      (\<not> protoListeners s \<longrightarrow>
         sent (snd (step (Ack (Authenticate p) r) s))
           = map (\<lambda>e. Subscribe (ServiceKey (fst e))) (services s)) \<and>
      ready (fst (step (Ack (Authenticate p) r) s)) \<and>
      services (fst (step (Ack (Authenticate p) r) s)) = services s) \<and>
   sent (snd (dist_on_authenticated d))
     = map (\<lambda>k. Subscribe (EventKey k)) (subscribeTo d)
       @ map (\<lambda>k. Unsubscribe (EventKey k)) (unsubscribeFrom d) \<and>
   subscribeTo (fst (dist_on_authenticated d)) = [] \<and>
   unsubscribeFrom (fst (dist_on_authenticated d)) = [] \<and>
   subscriptions (fst (dist_on_authenticated d)) = subscriptions d"
  by (simp add: on_authenticate_ack_def dist_on_authenticated_def sent_append
        sent_resubscribe sent_drain for_in_def)

theorem ready_transition_requests_witness:
  "\<not> truthy (error no_error) \<and>
   \<not> protoListeners (fresh_client\<lparr>services := [(''lights'', 2), (''blinds'', 1)]\<rparr>) \<and>
   sent (snd (step (Ack (Authenticate (Token ''token123'')) no_error)
      (fresh_client\<lparr>services := [(''lights'', 2), (''blinds'', 1)]\<rparr>)))
     = [Subscribe (ServiceKey ''lights''), Subscribe (ServiceKey ''blinds'')] \<and>
   sent (snd (dist_on_authenticated
      \<lparr>subscriptions = [], subscribeTo = [''a'', ''b''], unsubscribeFrom = [''c'', ''d'']\<rparr>))
     = [Subscribe (EventKey ''a''), Subscribe (EventKey ''b''),
        Unsubscribe (EventKey ''c''), Unsubscribe (EventKey ''d'')]"
  using ready_transition_requests [of no_error
      "fresh_client\<lparr>services := [(''lights'', 2), (''blinds'', 1)]\<rparr>" "Token ''token123''"
      "\<lparr>subscriptions = [], subscribeTo = [''a'', ''b''], unsubscribeFrom = [''c'', ''d'']\<rparr>"]
  by (simp add: no_error_def fresh_client_eq)

text \<open>
  In general the requests follow the keys that \<^verbatim>\<open>for ... in\<close> visits. A call of
  \<^verbatim>\<open>service\<close> with the name \<^verbatim>\<open>__proto__\<close> increments \<^verbatim>\<open>listeners\<close> on
  \<^verbatim>\<open>Object.prototype\<close> itself; the property is enumerable and inherited by the registry,
  and the next ready transition sends a \<^verbatim>\<open>subscribe\<close> request for it. Array indices are
  visited first, in ascending order.
\<close>

lemma ready_transition_for_in:
  "\<not> truthy (error r) \<Longrightarrow>
   sent (snd (step (Ack (Authenticate p) r) s)) = map (\<lambda>k. Subscribe (ServiceKey k)) (for_in s)"
  by (simp add: on_authenticate_ack_def sent_append sent_resubscribe)

lemma proto_listeners_resubscribed:
  "protoListeners (fst (run [CallService ''__proto__'' 0] fresh_client)) \<and>
   services (fst (run [CallService ''__proto__'' 0] fresh_client)) = [] \<and>
   sent (snd (run [CallService ''__proto__'' 0, Local Connect,
                   Ack (Authenticate (Token ''token123'')) no_error] fresh_client))
     = [Authenticate (Token ''token123''), Subscribe (ServiceKey ''listeners'')]"
  by (simp add: fresh_client_eq no_error_def on_connect_def on_authenticate_ack_def for_in_def
        service_def cached_def inherited_def lookup_service_def object_prototype_functions_def)

lemma array_indices_come_first:
  "for_in (fst (run [CallService ''b'' 0, CallService ''10'' 0, CallService ''a'' 0,
                     CallService ''2'' 0] fresh_client)) = [''2'', ''10'', ''b'', ''a'']"
  by (simp add: fresh_client_eq for_in_def service_def cached_def inherited_def
        lookup_service_def object_prototype_functions_def insert_own_def array_index_def
        is_digit_def digit_value_def)


section \<open>Authentication failure\<close>



section \<open>The wildcard handler\<close>



text \<open>The older build republishes under the event's own name, without a prefix.\<close>

lemma dist_star_keeps_name:
  "snd (dist_on_star event args d)
     = (if event \<in> set [''connect'', ''disconnect'', ''reconnecting'', ''error'']
        then [] else [Emit event (map Val args)])"
  by (simp add: dist_on_star_def)

section \<open>Reconnect attempts\<close>

text \<open>
  Claim C8, as stated, fails: a client that is ready is no longer ready after a
  \<^verbatim>\<open>reconnect_attempt\<close>, whether the socket emits the event or a packet carries it.
\<close>

theorem reconnect_attempt_counterexample:
  "ready (fst (run [Local Connect, Ack (Authenticate (Token ''token123'')) no_error]
                 fresh_client)) \<and>
   \<not> ready (fst (run [Local Connect, Ack (Authenticate (Token ''token123'')) no_error,
                      Local (ReconnectAttempt (JNum 1))] fresh_client)) \<and>
   \<not> ready (fst (run [Local Connect, Ack (Authenticate (Token ''token123'')) no_error,
                      Packet (ReconnectAttempt (JNum 1))] fresh_client))"
  by (simp add: fresh_client_eq no_error_def on_connect_def on_authenticate_ack_def
        on_reconnect_attempt_def onevent_def on_star_def)

text \<open>
  Claim C8, amended. On a \<^verbatim>\<open>reconnect_attempt\<close> event the client sets its readiness flag
  to false and changes no other field. When the socket emits the event itself, the only effect
  is the emission of \<^verbatim>\<open>reconnecting\<close> with the attempt number. When a packet of the
  server carries the event, there is one effect more: the \<^verbatim>\<open>'*'\<close> handler republishes it
  as \<^verbatim>\<open>internal:reconnect_attempt\<close> with the same argument.
\<close>

theorem reconnect_attempt_frame:
  "fst (step (Local (ReconnectAttempt attempt)) s) = s\<lparr>ready := False\<rparr> \<and>
   snd (step (Local (ReconnectAttempt attempt)) s) = [Emit ''reconnecting'' [Val attempt]] \<and>
   fst (step (Packet (ReconnectAttempt attempt)) s) = s\<lparr>ready := False\<rparr> \<and>
   snd (step (Packet (ReconnectAttempt attempt)) s)
     = [Emit ''reconnecting'' [Val attempt], Emit ''internal:reconnect_attempt'' [Val attempt]]"
  by (simp add: on_reconnect_attempt_def onevent_def on_star_def)

theorem reconnect_attempt_frame_witness:
  "\<not> ready (fst (step (Packet (ReconnectAttempt (JNum 3)))
      (fresh_client\<lparr>ready := True, services := [(''lights'', 1)]\<rparr>))) \<and>
   services (fst (step (Packet (ReconnectAttempt (JNum 3)))
      (fresh_client\<lparr>ready := True, services := [(''lights'', 1)]\<rparr>))) = [(''lights'', 1)] \<and>
   snd (step (Local (ReconnectAttempt (JNum 3)))
      (fresh_client\<lparr>ready := True, services := [(''lights'', 1)]\<rparr>))
     = [Emit ''reconnecting'' [Val (JNum 3)]] \<and>
   snd (step (Packet (ReconnectAttempt (JNum 3)))
      (fresh_client\<lparr>ready := True, services := [(''lights'', 1)]\<rparr>))
     = [Emit ''reconnecting'' [Val (JNum 3)], Emit ''internal:reconnect_attempt'' [Val (JNum 3)]]"
  using reconnect_attempt_frame [of "JNum 3"
      "fresh_client\<lparr>ready := True, services := [(''lights'', 1)]\<rparr>"]
  by simp

section \<open>The view of a service\<close>

text \<open>
  Claim C9, evaluated at an input the code can receive. On a new client the state cache has no
  entry for \<^verbatim>\<open>constructor\<close>, yet the read \<^verbatim>\<open>this._stateCache['constructor']\<close> gives
  the function inherited from \<^verbatim>\<open>Object.prototype\<close>. The \<^verbatim>\<open>ready\<close> getter of the view
  returns true, but the \<^verbatim>\<open>state\<close> getter returns that function and not \<^verbatim>\<open>null\<close>, and
  \<^verbatim>\<open>service\<close> itself takes it for a stale state and calls the listener with it.
\<close>

theorem inherited_name_has_state:
  "stateCache fresh_client ''constructor'' = None \<and>
   view_ready fresh_client ''constructor'' \<and>
   view_state fresh_client ''constructor'' = Builtin ''constructor'' \<and>
   snd (step (CallService ''constructor'' 0) fresh_client)
     = [BusOn ''sync:constructor'' (Wrapped 0),
        Log Debug ''found stale state for service'',
        Invoke (Wrapped 0) (Builtin ''constructor''),
        Log Debug ''already subscribed to sync from'']"
  by (simp add: fresh_client_eq view_ready_def view_state_def cached_def inherited_def
        service_def lookup_service_def object_prototype_functions_def)

text \<open>
  For every other name the getters are as described, as long as the cache has its first
  prototype: without an entry \<^verbatim>\<open>ready\<close> is true and \<^verbatim>\<open>state\<close> is \<^verbatim>\<open>null\<close>, and
  \<^verbatim>\<open>ready\<close> is false exactly when the entry is \<^verbatim>\<open>null\<close>.
\<close>

lemma view_of_plain_name:
  "(stateCache s name = None \<and> cachePrototype s = ObjectProto
      \<and> name \<notin> set object_prototype_names
      \<longrightarrow> view_ready s name \<and> view_state s name = Wire JNull) \<and>
   (cachePrototype s = ObjectProto
      \<longrightarrow> (\<not> view_ready s name \<longleftrightarrow> stateCache s name = Some JNull))"
  by (auto simp: view_ready_def view_state_def cached_def inherited_def
        object_prototype_names_def split: option.splits)

section \<open>Sync pushes\<close>

lemma stateCache_handle:
  "k \<notin> set object_prototype_names \<Longrightarrow>
   stateCache (fst (handle e s)) k \<noteq> stateCache s k \<Longrightarrow>
   map_of (services s) k \<noteq> None \<and> (\<exists>st. e = Sync k st)"
  by (cases e)
     (auto simp: on_connect_def on_disconnect_def cache_write_def lookup_service_def
        object_prototype_names_def
        on_reconnect_attempt_def on_sync_def on_connect_error_def on_connect_timeout_def
        on_authentication_timeout_def on_reconnect_failed_def
        split: if_splits jsval.splits option.splits)

lemma stateCache_service: "stateCache (fst (step (CallService name l) s)) = stateCache s"
  by (simp add: service_def Let_def split: entry.splits)

lemma stateCache_unsubscribe:
  "stateCache (fst (step (CallUnsubscribe b name l) s)) = stateCache s"
  by (simp add: unsubscribe_def Let_def split: entry.splits)

lemma stateCache_ack: "stateCache (fst (step (Ack q r) s)) = stateCache s"
  by (cases q) (simp_all add: on_authenticate_ack_def on_request_ack_def)

lemma stateCache_step:
  assumes "k \<notin> set object_prototype_names"
    and "stateCache (fst (step i s)) k \<noteq> stateCache s k"
  shows "map_of (services s) k \<noteq> None
     \<and> (\<exists>st. i = Local (Sync k st) \<or> i = Packet (Sync k st))"
proof (cases i)
  case (Local e)
  then show ?thesis using assms stateCache_handle [of k e s] by simp
next
  case (Packet e)
  then show ?thesis using assms stateCache_handle [of k e s] by (simp add: onevent_fst)
next
  case (Ack q r)
  then show ?thesis using assms stateCache_ack [of q r s] by simp
next
  case (CallService name l)
  then show ?thesis using assms stateCache_service [of name l s] by simp
next
  case (CallUnsubscribe b name l)
  then show ?thesis using assms stateCache_unsubscribe [of b name l s] by simp
qed

text \<open>
  Claim C10, as stated, fails: a \<^verbatim>\<open>sync\<close> packet for a service that is not in the registry
  does reach the bus, because the \<^verbatim>\<open>'*'\<close> handler republishes every packet that is not
  named like one of the four normalized events.
\<close>

theorem sync_packet_counterexample:
  "map_of (services fresh_client) ''lights'' = None \<and>
   emitted (snd (step (Packet (Sync ''lights'' (JNum 1))) fresh_client))
     = [(''internal:sync'', [Val (JObj [(''service'', JStr ''lights''), (''state'', JNum 1)])])]"
  by (simp add: fresh_client_eq onevent_def on_sync_def on_star_def lookup_service_def
        plain_lights)

text \<open>
  Claim C10, amended. When a \<^verbatim>\<open>sync\<close> packet names a service that is not in the registry
  and that is not the name of a property of \<^verbatim>\<open>Object.prototype\<close>, the \<^verbatim>\<open>sync\<close> handler
  changes nothing and only logs, the last entry being a warning; over the whole packet no
  field changes, no request is sent, and the bus receives one event, the republication of the
  packet under \<^verbatim>\<open>internal:sync\<close>. And whatever the input, the entry of the state cache
  for such a name changes only at a \<^verbatim>\<open>sync\<close> event for it while it is in the registry.
\<close>

theorem sync_for_unsubscribed_service:
  "(map_of (services s) name = None \<and> name \<notin> set object_prototype_names \<longrightarrow>
      handle (Sync name st) s
        = (s, [Log Debug ''sync - service:'',
               Log Warn ''received sync update for unsubscribed service'']) \<and>
      fst (step (Packet (Sync name st)) s) = s \<and>
      sent (snd (step (Packet (Sync name st)) s)) = [] \<and>
      emitted (snd (step (Packet (Sync name st)) s))
        = [(''internal:sync'', [Val (JObj [(''service'', JStr name), (''state'', st)])])]) \<and>
   (k \<notin> set object_prototype_names \<and> stateCache (fst (step i s)) k \<noteq> stateCache s k \<longrightarrow>
      map_of (services s) k \<noteq> None \<and> (\<exists>v. i = Local (Sync k v) \<or> i = Packet (Sync k v)))"
  using stateCache_step [of k i s]
  by (auto simp: on_sync_def onevent_def on_star_def lookup_service_def
        object_prototype_names_def)

theorem sync_for_unsubscribed_service_witness:
  "map_of (services fresh_client) ''lights'' = None \<and>
   ''lights'' \<notin> set object_prototype_names \<and>
   fst (step (Packet (Sync ''lights'' (JNum 1))) fresh_client) = fresh_client \<and>
   stateCache (fst (step (Packet (Sync ''lights'' (JNum 1)))
       (fresh_client\<lparr>services := [(''lights'', 1)]\<rparr>))) ''lights''
     \<noteq> stateCache (fresh_client\<lparr>services := [(''lights'', 1)]\<rparr>) ''lights'' \<and>
   map_of (services (fresh_client\<lparr>services := [(''lights'', 1)]\<rparr>)) ''lights'' \<noteq> None"
  using sync_for_unsubscribed_service [of fresh_client "''lights''" "JNum 1" "''lights''"
      "Packet (Sync ''lights'' (JNum 1))"]
    sync_for_unsubscribed_service
      [of "fresh_client\<lparr>services := [(''lights'', 1)]\<rparr>" "''lights''"
        "JNum 1" "''lights''" "Packet (Sync ''lights'' (JNum 1))"]
  by (simp add: fresh_client_eq onevent_def on_sync_def on_star_def lookup_service_def
        cache_write_def object_prototype_names_def object_prototype_functions_def)

text \<open>
  For a name inherited from \<^verbatim>\<open>Object.prototype\<close> the guard of the handler lets the push
  through although the service is not registered.
\<close>

lemma sync_for_inherited_name:
  "map_of (services fresh_client) ''constructor'' = None \<and>
   stateCache (fst (step (Packet (Sync ''constructor'' (JNum 1))) fresh_client)) ''constructor''
     = Some (JNum 1) \<and>
   emitted (snd (step (Packet (Sync ''constructor'' (JNum 1))) fresh_client))
     = [(''sync:constructor'', [Val (JNum 1)]),
        (''internal:sync'',
           [Val (JObj [(''service'', JStr ''constructor''), (''state'', JNum 1)])])]"
  by (simp add: fresh_client_eq onevent_def on_sync_def on_star_def lookup_service_def
        cache_write_def object_prototype_functions_def)

end
